theory Spec2Isabelle
  imports Complex_Main
begin

section \<open>Data model\<close>

text \<open>
  The epidemic states are the enum \<^verbatim>\<open>States\<close> of model.cpp.  The location tags are
  the enum \<^verbatim>\<open>Locations\<close>; the location vector stores them as plain \<^verbatim>\<open>size_t\<close>
  values (a location is also computed as a truncated product), so they are numbers here.
\<close>

datatype States = Susceptible | Infected | Infected_Hospitalized

abbreviation (input) Community :: nat where "Community \<equiv> 0"
abbreviation (input) Hospital :: nat where "Hospital \<equiv> 1"
abbreviation (input) Home :: nat where "Home \<equiv> 2"

text \<open>
  Modelled from the spec: the agent object of the population collaborator (epiworld's
  \<^verbatim>\<open>Agent\<close>, not part of the source file).  Spec section 3: an agent has a stable
  integer id, a current epidemic state, an optional attached pathogen and a fixed
  neighbor list.  An agent is addressed by its id, which is its index in the population;
  the neighbor list holds the neighbors' ids in the order the contact graph exposes them.
\<close>

record 'v agent =
  state :: States
  virus :: "'v option"
  neighbors :: "nat list"

text \<open>
  Everything the handlers read and write: the population held by the model object, the
  location vector \<^verbatim>\<open>locations\<close>, the global \<^verbatim>\<open>infection_log\<close> with entries
  (susceptible id, infector id, location), and the number of uniform draws taken from the
  model's random source so far.
\<close>

record 'v world =
  population :: "'v agent list"
  locations :: "nat list"
  infection_log :: "(nat \<times> nat \<times> nat) list"
  n_draws :: nat

section \<open>The services of the model object\<close>

text \<open>
  Modelled from the spec: \<^verbatim>\<open>m->runif()\<close> (spec sections 1 and 5).  The random source is
  a single seeded stream of uniform draws consumed in sequence.  The stream is the
  parameter \<open>d\<close> (draw number \<open>k\<close> of the run is \<open>d k\<close>); a draw returns the next value
  and advances the position.  The C++ values are doubles; the model takes draws and
  parameters as real numbers, so the constants 0.3 and 0.5 of the handlers are 3/10 and
  1/2.  That the draws lie in \<open>[0,1)\<close> is a hypothesis wherever a result depends on it.
\<close>

definition runif :: "(nat \<Rightarrow> real) \<Rightarrow> 'v world \<Rightarrow> real \<times> 'v world" where
  "runif d w = (d (n_draws w), w\<lparr>n_draws := Suc (n_draws w)\<rparr>)"

text \<open>
  Modelled from the spec: \<^verbatim>\<open>p->set_virus(v, m, s)\<close> (spec section 4.2, step 5): the agent
  transitions to state \<open>s\<close> with the pathogen \<open>v\<close> attached.
\<close>

definition set_virus :: "'v \<Rightarrow> States \<Rightarrow> nat \<Rightarrow> 'v world \<Rightarrow> 'v world" where
  "set_virus v s p w =
     w\<lparr>population := (population w)[p := (population w ! p)\<lparr>state := s, virus := Some v\<rparr>]\<rparr>"

text \<open>
  Modelled from the spec: \<^verbatim>\<open>p->change_state(m, s)\<close> (spec sections 4.3 and 4.5): the agent
  transitions to state \<open>s\<close>, the pathogen stays attached.
\<close>

definition change_state :: "States \<Rightarrow> nat \<Rightarrow> 'v world \<Rightarrow> 'v world" where
  "change_state s p w =
     w\<lparr>population := (population w)[p := (population w ! p)\<lparr>state := s\<rparr>]\<rparr>"

text \<open>
  Modelled from the spec: \<^verbatim>\<open>p->rm_virus(m, s)\<close> (spec sections 4.3 and 4.5): the agent
  transitions to state \<open>s\<close> and the pathogen is detached.
\<close>

definition rm_virus :: "States \<Rightarrow> nat \<Rightarrow> 'v world \<Rightarrow> 'v world" where
  "rm_virus s p w =
     w\<lparr>population := (population w)[p := (population w ! p)\<lparr>state := s, virus := None\<rparr>]\<rparr>"

text \<open>
  Modelled from the spec: \<^verbatim>\<open>roulette(probs, m)\<close> (spec section 4.4).  One uniform value
  \<open>u\<close> is drawn; \<open>[0,1)\<close> is cut into consecutive half-open intervals of widths
  \<open>p\<^sub>0, p\<^sub>1, \<dots>\<close>; the result is the index of the interval containing \<open>u\<close>, or \<open>-1\<close> when
  \<open>u\<close> lies in none of them.  \<open>roulette_interval i lo ps u\<close> searches the intervals of
  \<open>ps\<close>, the first of which starts at \<open>lo\<close> and has index \<open>i\<close>.
\<close>

fun roulette_interval :: "int \<Rightarrow> real \<Rightarrow> real list \<Rightarrow> real \<Rightarrow> int" where
  "roulette_interval i lo [] u = - 1"
| "roulette_interval i lo (p # ps) u =
     (if lo \<le> u \<and> u < lo + p then i else roulette_interval (i + 1) (lo + p) ps u)"

text \<open>
  Modelled from the spec: the roulette call itself (spec section 4.4): it draws one
  uniform value and returns the index of its interval.
\<close>

definition roulette :: "real list \<Rightarrow> (nat \<Rightarrow> real) \<Rightarrow> 'v world \<Rightarrow> int \<times> 'v world" where
  "roulette probs d w = (let (u, w') = runif d w in (roulette_interval 0 0 probs u, w'))"

section \<open>The handlers of model.cpp\<close>

text \<open>
  A handler takes the parameter lookup \<open>par\<close> (\<^verbatim>\<open>m->par(name)\<close>), the draw stream \<open>d\<close>,
  the acting agent \<open>p\<close> and the world, and returns the world it leaves behind.  The C++
  indexes \<^verbatim>\<open>locations\<close> with \<^verbatim>\<open>operator[]\<close> and follows agent pointers without any
  check; an index outside the vector, or an id that names no agent, has no defined
  behaviour there, and the model returns \<open>None\<close> in exactly these cases.
\<close>

text \<open>
  The neighbor loop of \<^verbatim>\<open>update_susceptible\<close> (lines 80 to 90), on the neighbors still
  to visit.  The result is the pair of locals (\<^verbatim>\<open>virus\<close>, \<^verbatim>\<open>infector_id\<close>) at loop exit,
  which start as (\<^verbatim>\<open>nullptr\<close>, 0).  The location of a neighbor is read only when its
  state is Infected (the \<^verbatim>\<open>&&\<close> short-circuits).
\<close>

fun scan_neighbors ::
  "(nat \<Rightarrow> real) \<Rightarrow> nat \<Rightarrow> nat list \<Rightarrow> 'v world \<Rightarrow> (('v option \<times> nat) \<times> 'v world) option" where
  "scan_neighbors d p [] w = Some ((None, 0), w)"
| "scan_neighbors d p (nb # nbs) w =
     (if length (population w) \<le> nb then None
      else if state (population w ! nb) = Infected then
        (if length (locations w) \<le> nb \<or> length (locations w) \<le> p then None
         else if locations w ! nb = locations w ! p then
           (let (u, w1) = runif d w
            in if u < 3 / 10 then Some ((virus (population w1 ! nb), nb), w1)
               else scan_neighbors d p nbs w1)
         else scan_neighbors d p nbs w)
      else scan_neighbors d p nbs w)"

definition update_susceptible ::
  "(string \<Rightarrow> real) \<Rightarrow> (nat \<Rightarrow> real) \<Rightarrow> nat \<Rightarrow> 'v world \<Rightarrow> 'v world option" where
  "update_susceptible par d p w =
     (if length (population w) \<le> p then None
      else if state (population w ! p) \<noteq> Susceptible then Some w
      else if length (locations w) \<le> p then None
      else
        let (u, w1) = runif d w;
            new_location = nat \<lfloor>u * 3\<rfloor>;
            w2 = w1\<lparr>locations := (locations w1)[p := new_location]\<rparr>
        in case scan_neighbors d p (neighbors (population w2 ! p)) w2 of
             None \<Rightarrow> None
           | Some ((None, infector_id), w3) \<Rightarrow> Some w3
           | Some ((Some v, infector_id), w3) \<Rightarrow>
               (let w4 = w3\<lparr>infection_log := infection_log w3 @ [(p, infector_id, new_location)]\<rparr>;
                    (u', w5) = runif d w4
                in if par ''Prob hospitalization'' > u'
                   then Some (set_virus v Infected_Hospitalized p w5)
                   else Some (set_virus v Infected p w5)))"

definition update_infected ::
  "(string \<Rightarrow> real) \<Rightarrow> (nat \<Rightarrow> real) \<Rightarrow> nat \<Rightarrow> 'v world \<Rightarrow> 'v world option" where
  "update_infected par d p w =
     (if length (population w) \<le> p \<or> length (locations w) \<le> p then None
      else
        let (u, w1) = runif d w;
            new_location = (if u < 1 / 2 then Community else Home);
            w2 = w1\<lparr>locations := (locations w1)[p := new_location]\<rparr>;
            probs = [par ''Prob hospitalization'', par ''Prob recovery''];
            (res, w3) = roulette probs d w2
        in if res = 0 then Some (change_state Infected_Hospitalized p w3)
           else if res = 1 then Some (rm_virus Susceptible p w3)
           else Some w3)"

definition update_infected_hospitalized ::
  "(string \<Rightarrow> real) \<Rightarrow> (nat \<Rightarrow> real) \<Rightarrow> nat \<Rightarrow> 'v world \<Rightarrow> 'v world option" where
  "update_infected_hospitalized par d p w =
     (if length (population w) \<le> p \<or> length (locations w) \<le> p then None
      else
        let w1 = w\<lparr>locations := (locations w)[p := Hospital]\<rparr>;
            (u, w2) = runif d w1
        in if par ''Prob recovery'' > u then Some (rm_virus Susceptible p w2)
           else let (u', w3) = runif d w2
                in if par ''Discharge infected'' > u' then Some (change_state Infected p w3)
                   else Some w3)"

section \<open>The scheduler\<close>

text \<open>
  Modelled from the spec: the call of the handler registered for an agent's state
  (epiworld's per-state callback lookup, not part of the source file; spec sections 2
  and 6).  The driver invokes, for an agent, the handler matching the agent's current
  state; \<^verbatim>\<open>main\<close> registers the three handlers under the states 0, 1 and 2.
\<close>

definition update_state ::
  "(string \<Rightarrow> real) \<Rightarrow> (nat \<Rightarrow> real) \<Rightarrow> nat \<Rightarrow> 'v world \<Rightarrow> 'v world option" where
  "update_state par d p w =
     (if length (population w) \<le> p then None
      else case state (population w ! p) of
             Susceptible \<Rightarrow> update_susceptible par d p w
           | Infected \<Rightarrow> update_infected par d p w
           | Infected_Hospitalized \<Rightarrow> update_infected_hospitalized par d p w)"

text \<open>
  Modelled from the spec: one simulation step (epiworld's \<^verbatim>\<open>Model::run\<close> loop, not part
  of the source file; spec section 5 and the glossary).  One step advances all agents
  once, in ascending agent id, every handler running to completion before the next
  agent's handler begins.  \<open>run_agents\<close> invokes the handlers of the listed agents in
  order.
\<close>

fun run_agents ::
  "(string \<Rightarrow> real) \<Rightarrow> (nat \<Rightarrow> real) \<Rightarrow> nat list \<Rightarrow> 'v world \<Rightarrow> 'v world option" where
  "run_agents par d [] w = Some w"
| "run_agents par d (p # ps) w =
     (case update_state par d p w of
        None \<Rightarrow> None
      | Some w' \<Rightarrow> run_agents par d ps w')"

text \<open>
  Modelled from the spec: a step is the pass over the whole population in ascending
  agent id (spec section 5).
\<close>

definition step :: "(string \<Rightarrow> real) \<Rightarrow> (nat \<Rightarrow> real) \<Rightarrow> 'v world \<Rightarrow> 'v world option" where
  "step par d w = run_agents par d [0..<length (population w)] w"

text \<open>
  Modelled from the spec: the points of a run (spec section 2: the driver invokes, for an
  agent, the handler matching the agent's current state).  They are the worlds reached
  from \<open>w0\<close> by any sequence of such invocations, in any order of the agents; every
  world between two invocations of a run of \<open>step\<close>s is one of them.
\<close>

inductive reachable ::
  "(string \<Rightarrow> real) \<Rightarrow> (nat \<Rightarrow> real) \<Rightarrow> 'v world \<Rightarrow> 'v world \<Rightarrow> bool"
  for par d w0 where
  start: "reachable par d w0 w0"
| invoke: "reachable par d w0 w \<Longrightarrow> update_state par d p w = Some w' \<Longrightarrow> reachable par d w0 w'"

section \<open>Predicates of the claims\<close>

text \<open>
  A world is well formed when the location vector has one entry per agent (\<^verbatim>\<open>main\<close>
  allocates 1000 entries for 1000 agents) and every neighbor id names an agent of the
  population.
\<close>

definition wf_world :: "'v world \<Rightarrow> bool" where
  "wf_world w \<longleftrightarrow>
     length (locations w) = length (population w) \<and>
     (\<forall>a \<in> set (population w). \<forall>nb \<in> set (neighbors a). nb < length (population w))"

text \<open>
  The neighbors among \<open>nbs\<close>, in order, that are eligible infectors of agent \<open>p\<close>:
  their state is Infected and their stored location equals the stored location of \<open>p\<close>.
\<close>

definition eligible :: "nat \<Rightarrow> 'v world \<Rightarrow> nat list \<Rightarrow> nat list" where
  "eligible p w nbs =
     filter (\<lambda>nb. state (population w ! nb) = Infected \<and> locations w ! nb = locations w ! p) nbs"

text \<open>
  The pathogen attachment invariant: an agent carries no pathogen exactly when it is
  Susceptible.
\<close>

definition attachment_ok :: "'v world \<Rightarrow> bool" where
  "attachment_ok w \<longleftrightarrow> (\<forall>a \<in> set (population w). state a = Susceptible \<longleftrightarrow> virus a = None)"

text \<open>
  The location assignment policy (spec section 4.1) as a relation between the state an
  agent's handler is invoked in and the location the handler stores: any of the three
  for Susceptible, Community or Home for Infected, Hospital for Infected-Hospitalized.
\<close>

definition location_fits :: "States \<Rightarrow> nat \<Rightarrow> bool" where
  "location_fits s l =
     (case s of
        Susceptible \<Rightarrow> l = Community \<or> l = Hospital \<or> l = Home
      | Infected \<Rightarrow> l = Community \<or> l = Home
      | Infected_Hospitalized \<Rightarrow> l = Hospital)"

section \<open>Example worlds\<close>

text \<open>
  Two connected agents: agent 0 is Infected and carries the pathogen, agent 1 is
  Susceptible; agent 0 is in the Community, agent 1 at Home.
\<close>

definition ex_pop :: "string agent list" where
  "ex_pop = [\<lparr>state = Infected, virus = Some ''MRSA'', neighbors = [1]\<rparr>,
             \<lparr>state = Susceptible, virus = None, neighbors = [0]\<rparr>]"

definition ex_world :: "string world" where
  "ex_world = \<lparr>population = ex_pop, locations = [Community, Home], infection_log = [], n_draws = 0\<rparr>"

text \<open>The same two agents with agent 0 hospitalized.\<close>

definition ex_pop_hosp :: "string agent list" where
  "ex_pop_hosp = [\<lparr>state = Infected_Hospitalized, virus = Some ''MRSA'', neighbors = [1]\<rparr>,
                  \<lparr>state = Susceptible, virus = None, neighbors = [0]\<rparr>]"

definition ex_world_hosp :: "string world" where
  "ex_world_hosp =
     \<lparr>population = ex_pop_hosp, locations = [Community, Home], infection_log = [], n_draws = 0\<rparr>"

text \<open>The parameters that \<^verbatim>\<open>main\<close> registers.\<close>

definition ex_par :: "string \<Rightarrow> real" where
  "ex_par name =
     (if name = ''Prob hospitalization'' then 1 / 10
      else if name = ''Prob recovery'' then 0
      else if name = ''Discharge infected'' then 1 / 10
      else 0)"

text \<open>
  Draw streams.  \<open>ex_draws_infect\<close>: the first draw puts a Susceptible agent in the
  Community, the second is a successful infection trial, the later ones are 1/2.
  \<open>ex_draws_miss\<close>: the first draw puts a Susceptible agent in the Community, every
  later draw is 1/2.  \<open>ex_draws_discharge\<close>: 1/2, then 1/20 ever after.
\<close>

definition ex_draws_infect :: "nat \<Rightarrow> real" where
  "ex_draws_infect k = (if k = 0 then 0 else if k = 1 then 1 / 10 else 1 / 2)"

definition ex_draws_miss :: "nat \<Rightarrow> real" where
  "ex_draws_miss k = (if k = 0 then 0 else 1 / 2)"

definition ex_draws_discharge :: "nat \<Rightarrow> real" where
  "ex_draws_discharge k = (if k = 0 then 1 / 2 else 1 / 20)"

text \<open>A single Infected agent without neighbors, its stored location Hospital.\<close>

definition ex_single :: "string world" where
  "ex_single =
     \<lparr>population = [\<lparr>state = Infected, virus = Some ''MRSA'', neighbors = []\<rparr>],
      locations = [Hospital], infection_log = [], n_draws = 0\<rparr>"

text \<open>
  More draw streams: \<open>ex_draws_zero\<close> is constantly 0 and \<open>ex_draws_high\<close>
  constantly 9/10.
\<close>

definition ex_draws_zero :: "nat \<Rightarrow> real" where
  "ex_draws_zero k = 0"

definition ex_draws_high :: "nat \<Rightarrow> real" where
  "ex_draws_high k = 9 / 10"

text \<open>
  More parameters: certain hospitalization and no recovery or discharge; recovery with
  probability 9/10; recovery with probability 1.
\<close>

definition ex_par_recover_one :: "string \<Rightarrow> real" where
  "ex_par_recover_one name = (if name = ''Prob recovery'' then 1 else 0)"

definition ex_par_hosp :: "string \<Rightarrow> real" where
  "ex_par_hosp name = (if name = ''Prob hospitalization'' then 1 else 0)"

definition ex_par_recover :: "string \<Rightarrow> real" where
  "ex_par_recover name =
     (if name = ''Prob hospitalization'' then 1 / 10
      else if name = ''Prob recovery'' then 9 / 10
      else 0)"

text \<open>
  A Susceptible agent 0 with three Infected neighbors, of which agents 1 and 3 are in
  the Community and agent 2 is in the Hospital; agent 3 carries another pathogen.  With
  \<open>ex_draws_second\<close> agent 0 moves to the Community, the trial of agent 1 fails, the
  trial of agent 3 succeeds and the hospitalization check succeeds.
\<close>

definition ex_world4 :: "string world" where
  "ex_world4 =
     \<lparr>population = [\<lparr>state = Susceptible, virus = None, neighbors = [1, 2, 3]\<rparr>,
                    \<lparr>state = Infected, virus = Some ''MRSA'', neighbors = [0]\<rparr>,
                    \<lparr>state = Infected, virus = Some ''MRSA'', neighbors = [0]\<rparr>,
                    \<lparr>state = Infected, virus = Some ''MRSA-2'', neighbors = [0]\<rparr>],
      locations = [Home, Community, Hospital, Community], infection_log = [], n_draws = 0\<rparr>"

definition ex_draws_second :: "nat \<Rightarrow> real" where
  "ex_draws_second k =
     (if k = 0 then 0 else if k = 1 then 1 / 2 else if k = 2 then 1 / 10 else 1 / 20)"

section \<open>The neighbor scan\<close>

lemma eligible_n_draws: "eligible p (w\<lparr>n_draws := k\<rparr>) nbs = eligible p w nbs"
  by (simp add: eligible_def)

lemma scan_neighbors_frame:
  "scan_neighbors d p nbs w = Some (r, w3) \<Longrightarrow>
     w3 = w\<lparr>n_draws := n_draws w3\<rparr> \<and> n_draws w \<le> n_draws w3"
proof (induction nbs arbitrary: w)
  case Nil
  then show ?case by auto
next
  case (Cons nb nbs)
  show ?case
  proof (cases "state (population w ! nb) = Infected \<and> locations w ! nb = locations w ! p")
    case True
    show ?thesis
    proof (cases "d (n_draws w) < 3 / 10")
      case hit: True
      with True Cons.prems show ?thesis
        by (auto simp add: runif_def split: if_splits)
    next
      case miss: False
      with True Cons.prems
      have "scan_neighbors d p nbs (w\<lparr>n_draws := Suc (n_draws w)\<rparr>) = Some (r, w3)"
        by (simp add: runif_def split: if_splits)
      from Cons.IH [OF this] show ?thesis
        by (cases w3) (cases w, auto)
    qed
  next
    case False
    with Cons.prems have "scan_neighbors d p nbs w = Some (r, w3)"
      by (auto split: if_splits)
    from Cons.IH [OF this] show ?thesis .
  qed
qed

lemma scan_neighbors_infector:
  "scan_neighbors d p nbs w = Some ((Some v, infector_id), w3) \<Longrightarrow>
     infector_id \<in> set nbs \<and> state (population w ! infector_id) = Infected \<and>
     locations w ! infector_id = locations w ! p \<and>
     virus (population w ! infector_id) = Some v"
proof (induction nbs arbitrary: w)
  case Nil
  then show ?case by simp
next
  case (Cons nb nbs)
  show ?case
  proof (cases "state (population w ! nb) = Infected \<and> locations w ! nb = locations w ! p")
    case True
    show ?thesis
    proof (cases "d (n_draws w) < 3 / 10")
      case hit: True
      with True Cons.prems show ?thesis
        by (auto simp add: runif_def split: if_splits)
    next
      case miss: False
      with True Cons.prems
      have "scan_neighbors d p nbs (w\<lparr>n_draws := Suc (n_draws w)\<rparr>) = Some ((Some v, infector_id), w3)"
        by (simp add: runif_def split: if_splits)
      from Cons.IH [OF this] show ?thesis
        by simp
    qed
  next
    case False
    with Cons.prems have "scan_neighbors d p nbs w = Some ((Some v, infector_id), w3)"
      by (auto split: if_splits)
    from Cons.IH [OF this] show ?thesis by simp
  qed
qed

lemma scan_neighbors_defined:
  assumes "\<forall>nb \<in> set nbs. nb < length (population w) \<and> nb < length (locations w)"
    and "p < length (locations w)"
  shows "\<exists>r k. scan_neighbors d p nbs w = Some (r, w\<lparr>n_draws := k\<rparr>)"
  using assms
proof (induction nbs arbitrary: w)
  case Nil
  have "w = w\<lparr>n_draws := n_draws w\<rparr>" by simp
  then show ?case by (metis scan_neighbors.simps(1))
next
  case (Cons nb nbs)
  have rest: "\<exists>r k. scan_neighbors d p nbs w = Some (r, w\<lparr>n_draws := k\<rparr>)"
    using Cons.prems by (intro Cons.IH) simp_all
  have "\<exists>r k. scan_neighbors d p nbs (w\<lparr>n_draws := Suc (n_draws w)\<rparr>) =
          Some (r, w\<lparr>n_draws := Suc (n_draws w)\<rparr>\<lparr>n_draws := k\<rparr>)"
    using Cons.prems by (intro Cons.IH) simp_all
  then have rest1: "\<exists>r k. scan_neighbors d p nbs (w\<lparr>n_draws := Suc (n_draws w)\<rparr>) =
          Some (r, w\<lparr>n_draws := k\<rparr>)"
    by simp
  have here: "w\<lparr>n_draws := Suc (n_draws w)\<rparr> = w\<lparr>n_draws := Suc (n_draws w)\<rparr>" ..
  from Cons.prems rest rest1 show ?case
    by (auto simp add: runif_def)
qed

lemma scan_neighbors_miss:
  assumes "\<forall>nb \<in> set nbs. nb < length (population w) \<and> nb < length (locations w)"
    and "p < length (locations w)"
    and "\<forall>k < length (eligible p w nbs). \<not> d (n_draws w + k) < 3 / 10"
  shows "scan_neighbors d p nbs w =
           Some ((None, 0), w\<lparr>n_draws := n_draws w + length (eligible p w nbs)\<rparr>)"
  using assms
proof (induction nbs arbitrary: w)
  case Nil
  then show ?case by (simp add: eligible_def)
next
  case (Cons nb nbs)
  show ?case
  proof (cases "state (population w ! nb) = Infected \<and> locations w ! nb = locations w ! p")
    case True
    then have el: "eligible p w (nb # nbs) = nb # eligible p w nbs"
      by (simp add: eligible_def)
    from Cons.prems(3) el have miss: "\<not> d (n_draws w) < 3 / 10"
      by auto
    let ?w1 = "w\<lparr>n_draws := Suc (n_draws w)\<rparr>"
    have later: "\<forall>k < length (eligible p ?w1 nbs). \<not> d (n_draws ?w1 + k) < 3 / 10"
    proof (intro allI impI)
      fix k assume "k < length (eligible p ?w1 nbs)"
      then have "Suc k < length (eligible p w (nb # nbs))" by (simp add: el eligible_n_draws)
      with Cons.prems(3) have "\<not> d (n_draws w + Suc k) < 3 / 10" by blast
      then show "\<not> d (n_draws ?w1 + k) < 3 / 10" by simp
    qed
    have "scan_neighbors d p nbs ?w1 =
            Some ((None, 0), ?w1\<lparr>n_draws := n_draws ?w1 + length (eligible p ?w1 nbs)\<rparr>)"
      using Cons.prems(1,2) later by (intro Cons.IH) simp_all
    with True miss Cons.prems(1,2) show ?thesis
      by (simp add: runif_def el eligible_n_draws)
  next
    case False
    then have el: "eligible p w (nb # nbs) = eligible p w nbs"
      by (auto simp add: eligible_def)
    have "scan_neighbors d p nbs w =
            Some ((None, 0), w\<lparr>n_draws := n_draws w + length (eligible p w nbs)\<rparr>)"
      using Cons.prems by (intro Cons.IH) (simp_all add: el)
    with False Cons.prems(1,2) show ?thesis
      by (auto simp add: el)
  qed
qed

lemma scan_neighbors_hit:
  assumes "\<forall>nb \<in> set nbs. nb < length (population w) \<and> nb < length (locations w)"
    and "p < length (locations w)"
    and "k < length (eligible p w nbs)"
    and "d (n_draws w + k) < 3 / 10"
    and "\<forall>j < k. \<not> d (n_draws w + j) < 3 / 10"
  shows "scan_neighbors d p nbs w =
           Some ((virus (population w ! (eligible p w nbs ! k)), eligible p w nbs ! k),
                 w\<lparr>n_draws := Suc (n_draws w + k)\<rparr>)"
  using assms
proof (induction nbs arbitrary: w k)
  case Nil
  then show ?case by (simp add: eligible_def)
next
  case (Cons nb nbs)
  show ?case
  proof (cases "state (population w ! nb) = Infected \<and> locations w ! nb = locations w ! p")
    case True
    then have el: "eligible p w (nb # nbs) = nb # eligible p w nbs"
      by (simp add: eligible_def)
    show ?thesis
    proof (cases k)
      case 0
      with True Cons.prems show ?thesis
        by (simp add: runif_def el)
    next
      case (Suc k')
      with Cons.prems(5) have miss: "\<not> d (n_draws w) < 3 / 10"
        by auto
      let ?w1 = "w\<lparr>n_draws := Suc (n_draws w)\<rparr>"
      have earlier: "\<forall>j < k'. \<not> d (n_draws ?w1 + j) < 3 / 10"
      proof (intro allI impI)
        fix j assume "j < k'"
        then have "Suc j < k" by (simp add: Suc)
        with Cons.prems(5) have "\<not> d (n_draws w + Suc j) < 3 / 10" by blast
        then show "\<not> d (n_draws ?w1 + j) < 3 / 10" by simp
      qed
      have "scan_neighbors d p nbs ?w1 =
              Some ((virus (population ?w1 ! (eligible p ?w1 nbs ! k')), eligible p ?w1 nbs ! k'),
                    ?w1\<lparr>n_draws := Suc (n_draws ?w1 + k')\<rparr>)"
        using Cons.prems(1,2,3,4) earlier Suc by (intro Cons.IH) (simp_all add: el eligible_n_draws)
      with True miss Cons.prems(1,2) Suc show ?thesis
        by (simp add: runif_def el eligible_n_draws)
    qed
  next
    case False
    then have el: "eligible p w (nb # nbs) = eligible p w nbs"
      by (auto simp add: eligible_def)
    have "scan_neighbors d p nbs w =
            Some ((virus (population w ! (eligible p w nbs ! k)), eligible p w nbs ! k),
                  w\<lparr>n_draws := Suc (n_draws w + k)\<rparr>)"
      using Cons.prems by (intro Cons.IH) (simp_all add: el)
    with False Cons.prems(1,2) show ?thesis
      by (auto simp add: el)
  qed
qed

lemma update_susceptible_scan:
  assumes "p < length (population w)" and "p < length (locations w)"
    and "state (population w ! p) = Susceptible"
    and "scan_neighbors d p (neighbors (population w ! p))
           (w\<lparr>n_draws := Suc (n_draws w), locations := (locations w)[p := nat \<lfloor>d (n_draws w) * 3\<rfloor>]\<rparr>)
         = Some ((found, infector_id), w3)"
  shows "update_susceptible par d p w =
     Some (case found of
             None \<Rightarrow> w3
           | Some v \<Rightarrow>
               w3\<lparr>population := (population w3)[p := (population w3 ! p)
                      \<lparr>state := (if par ''Prob hospitalization'' > d (n_draws w3)
                                 then Infected_Hospitalized else Infected),
                       virus := Some v\<rparr>],
                   infection_log := infection_log w3 @ [(p, infector_id, nat \<lfloor>d (n_draws w) * 3\<rfloor>)],
                   n_draws := Suc (n_draws w3)\<rparr>)"
  using assms
  by (simp add: update_susceptible_def runif_def set_virus_def Let_def split: option.splits)

section \<open>The Susceptible handler's guard\<close>

text \<open>
  Claim C10.  Invoked on an agent whose state is not Susceptible, the Susceptible handler
  returns at once: the world it leaves is the world it was given, so the agent's location,
  the infection log, the agent's state and pathogen are unchanged and no uniform draw is
  consumed.
\<close>

theorem update_susceptible_not_susceptible_noop:
  assumes "p < length (population w)"
    and "state (population w ! p) \<noteq> Susceptible"
  shows "update_susceptible par d p w = Some w"
  using assms by (simp add: update_susceptible_def)

theorem update_susceptible_not_susceptible_noop_witness:
  "0 < length (population ex_world) \<and> state (population ex_world ! 0) \<noteq> Susceptible \<and>
   update_susceptible ex_par ex_draws_zero 0 ex_world = Some ex_world"
  using update_susceptible_not_susceptible_noop [of 0 ex_world ex_par ex_draws_zero]
  by (simp add: ex_world_def ex_pop_def)

section \<open>Infection of a Susceptible agent\<close>

text \<open>
  Claim C4.  Let the neighbor scan of a Susceptible agent \<open>p\<close>, run after the location
  draw, end with the locals (\<open>found\<close>, \<open>infector_id\<close>) in world \<open>w3\<close>.  When an
  infector was found (\<open>found\<close> is a pathogen \<open>v\<close>), the handler appends the one record
  (\<open>p\<close>, \<open>infector_id\<close>, location) to the infection log, takes one more draw, and moves
  the agent to Infected-Hospitalized when "Prob hospitalization" exceeds that draw and to
  Infected otherwise, with \<open>v\<close> attached, and \<open>v\<close> is the pathogen the infector
  carries.  When none was found the handler leaves \<open>w3\<close>, whose population and log are
  those of the start.
\<close>

theorem update_susceptible_infection:
  assumes "p < length (population w)" and "p < length (locations w)"
    and "state (population w ! p) = Susceptible"
    and "scan_neighbors d p (neighbors (population w ! p))
           (w\<lparr>n_draws := Suc (n_draws w), locations := (locations w)[p := nat \<lfloor>d (n_draws w) * 3\<rfloor>]\<rparr>)
         = Some ((found, infector_id), w3)"
  shows "update_susceptible par d p w =
     Some (case found of
             None \<Rightarrow> w3
           | Some v \<Rightarrow>
               w3\<lparr>population := (population w)[p := (population w ! p)
                      \<lparr>state := (if par ''Prob hospitalization'' > d (n_draws w3)
                                 then Infected_Hospitalized else Infected),
                       virus := Some v\<rparr>],
                   infection_log := infection_log w @ [(p, infector_id, nat \<lfloor>d (n_draws w) * 3\<rfloor>)],
                   n_draws := n_draws w3 + 1\<rparr>) \<and>
     population w3 = population w \<and> infection_log w3 = infection_log w \<and>
     (\<forall>v. found = Some v \<longrightarrow> virus (population w ! infector_id) = Some v)"
proof -
  let ?w2 = "w\<lparr>n_draws := Suc (n_draws w), locations := (locations w)[p := nat \<lfloor>d (n_draws w) * 3\<rfloor>]\<rparr>"
  from scan_neighbors_frame [OF assms(4)] have "w3 = ?w2\<lparr>n_draws := n_draws w3\<rparr>"
    by simp
  then have frame: "population w3 = population w" "infection_log w3 = infection_log w"
    by (cases w3, simp)+
  have src: "\<forall>v. found = Some v \<longrightarrow> virus (population w ! infector_id) = Some v"
    using scan_neighbors_infector [of d p _ ?w2 _ infector_id w3] assms(4) by auto
  from update_susceptible_scan [OF assms, of par] frame src show ?thesis
    by (cases found) simp_all
qed

theorem update_susceptible_infection_witness:
  "1 < length (population ex_world) \<and> 1 < length (locations ex_world) \<and>
   state (population ex_world ! 1) = Susceptible \<and>
   scan_neighbors ex_draws_infect 1 (neighbors (population ex_world ! 1))
     (ex_world\<lparr>n_draws := Suc (n_draws ex_world),
                 locations := (locations ex_world)[1 := nat \<lfloor>ex_draws_infect (n_draws ex_world) * 3\<rfloor>]\<rparr>)
     = Some ((Some ''MRSA'', 0),
             \<lparr>population = ex_pop, locations = [Community, Community], infection_log = [], n_draws = 2\<rparr>) \<and>
   update_susceptible ex_par ex_draws_infect 1 ex_world =
     Some \<lparr>population = [\<lparr>state = Infected, virus = Some ''MRSA'', neighbors = [1]\<rparr>,
                          \<lparr>state = Infected, virus = Some ''MRSA'', neighbors = [0]\<rparr>],
           locations = [Community, Community],
           infection_log = [(1, 0, Community)],
           n_draws = 3\<rparr>"
proof -
  have scan: "scan_neighbors ex_draws_infect 1 (neighbors (population ex_world ! 1))
     (ex_world\<lparr>n_draws := Suc (n_draws ex_world),
                 locations := (locations ex_world)[1 := nat \<lfloor>ex_draws_infect (n_draws ex_world) * 3\<rfloor>]\<rparr>)
     = Some ((Some ''MRSA'', 0),
             \<lparr>population = ex_pop, locations = [Community, Community], infection_log = [], n_draws = 2\<rparr>)"
    by (simp add: ex_world_def ex_pop_def ex_draws_infect_def runif_def)
  have pre: "1 < length (population ex_world)" "1 < length (locations ex_world)"
    "state (population ex_world ! 1) = Susceptible"
    by (simp_all add: ex_world_def ex_pop_def)
  from update_susceptible_infection [OF pre scan, of ex_par] scan pre show ?thesis
    by (simp add: ex_world_def ex_pop_def ex_draws_infect_def ex_par_def)
qed

section \<open>The Infected-Hospitalized handler\<close>

text \<open>
  Claim C6.  The handler sets the agent's location to Hospital in every case.  When
  "Prob recovery" exceeds the first draw the agent becomes Susceptible without pathogen
  and exactly one draw is consumed.  Otherwise a second draw is consumed: when
  "Discharge infected" exceeds it the agent becomes Infected and keeps its pathogen,
  else the agent and its pathogen stay as they are.
\<close>

theorem update_infected_hospitalized_cases:
  assumes "p < length (population w)" and "p < length (locations w)"
  shows "update_infected_hospitalized par d p w =
    Some (if par ''Prob recovery'' > d (n_draws w)
          then w\<lparr>population := (population w)[p := (population w ! p)\<lparr>state := Susceptible, virus := None\<rparr>],
                 locations := (locations w)[p := Hospital],
                 n_draws := n_draws w + 1\<rparr>
          else if par ''Discharge infected'' > d (n_draws w + 1)
          then w\<lparr>population := (population w)[p := (population w ! p)\<lparr>state := Infected\<rparr>],
                 locations := (locations w)[p := Hospital],
                 n_draws := n_draws w + 2\<rparr>
          else w\<lparr>locations := (locations w)[p := Hospital], n_draws := n_draws w + 2\<rparr>)"
  using assms
  by (simp add: update_infected_hospitalized_def runif_def rm_virus_def change_state_def Let_def)

theorem update_infected_hospitalized_cases_witness:
  "0 < length (population ex_world_hosp) \<and> 0 < length (locations ex_world_hosp) \<and>
   update_infected_hospitalized ex_par ex_draws_discharge 0 ex_world_hosp =
     Some \<lparr>population = [\<lparr>state = Infected, virus = Some ''MRSA'', neighbors = [1]\<rparr>,
                          \<lparr>state = Susceptible, virus = None, neighbors = [0]\<rparr>],
           locations = [Hospital, Home], infection_log = [], n_draws = 2\<rparr>"
  using update_infected_hospitalized_cases [of 0 ex_world_hosp ex_par ex_draws_discharge]
  by (simp add: ex_world_hosp_def ex_pop_hosp_def ex_par_def ex_draws_discharge_def)

text \<open>
  Claim C7.  With "Prob recovery" equal to 1 and the draw below 1, as every uniform draw
  is, the Infected-Hospitalized handler leaves the agent Susceptible with no pathogen,
  whatever the draws are.
\<close>

theorem prob_recovery_one_recovers:
  assumes "p < length (population w)" and "p < length (locations w)"
    and "par ''Prob recovery'' = 1"
    and "d (n_draws w) < 1"
  shows "\<exists>w'. update_infected_hospitalized par d p w = Some w' \<and>
           state (population w' ! p) = Susceptible \<and> virus (population w' ! p) = None"
  using assms
  by (simp add: update_infected_hospitalized_def runif_def rm_virus_def Let_def)

theorem prob_recovery_one_recovers_witness:
  "0 < length (population ex_world_hosp) \<and> 0 < length (locations ex_world_hosp) \<and>
   ex_par_recover_one ''Prob recovery'' = 1 \<and> ex_draws_high (n_draws ex_world_hosp) < 1 \<and>
   (\<exists>w'. update_infected_hospitalized ex_par_recover_one ex_draws_high 0 ex_world_hosp = Some w' \<and>
           state (population w' ! 0) = Susceptible \<and> virus (population w' ! 0) = None)"
  using prob_recovery_one_recovers [of 0 ex_world_hosp ex_par_recover_one ex_draws_high]
  by (simp add: ex_world_hosp_def ex_pop_hosp_def ex_par_recover_one_def ex_draws_high_def)

section \<open>The Infected handler\<close>

text \<open>
  Claim C5.  The Infected handler draws the location, then applies roulette selection to
  the ordered pair of "Prob hospitalization" and "Prob recovery".  With \<open>res\<close> the
  outcome of that selection and \<open>w3\<close> the world after it: outcome 0 moves the agent to
  Infected-Hospitalized and keeps its pathogen, outcome 1 moves it to Susceptible and
  detaches the pathogen, and any other outcome, -1 among them, leaves \<open>w3\<close>, whose
  population is the one of the start: state and pathogen are unchanged.
\<close>

theorem update_infected_outcomes:
  assumes "p < length (population w)" and "p < length (locations w)"
    and "roulette [par ''Prob hospitalization'', par ''Prob recovery''] d
           (w\<lparr>n_draws := Suc (n_draws w),
              locations := (locations w)[p := (if d (n_draws w) < 1 / 2 then Community else Home)]\<rparr>)
         = (res, w3)"
  shows "update_infected par d p w =
    Some (if res = 0
          then w3\<lparr>population := (population w)[p := (population w ! p)\<lparr>state := Infected_Hospitalized\<rparr>]\<rparr>
          else if res = 1
          then w3\<lparr>population := (population w)[p := (population w ! p)\<lparr>state := Susceptible, virus := None\<rparr>]\<rparr>
          else w3) \<and>
    population w3 = population w"
  using assms
  by (auto simp add: update_infected_def runif_def roulette_def rm_virus_def change_state_def Let_def)

theorem update_infected_outcomes_witness:
  "0 < length (population ex_world) \<and> 0 < length (locations ex_world) \<and>
   roulette [ex_par ''Prob hospitalization'', ex_par ''Prob recovery''] ex_draws_discharge
     (ex_world\<lparr>n_draws := Suc (n_draws ex_world),
        locations := (locations ex_world)[0 := (if ex_draws_discharge (n_draws ex_world) < 1 / 2 then Community else Home)]\<rparr>)
     = (0, \<lparr>population = ex_pop, locations = [Home, Home], infection_log = [], n_draws = 2\<rparr>) \<and>
   update_infected ex_par ex_draws_discharge 0 ex_world =
     Some \<lparr>population = [\<lparr>state = Infected_Hospitalized, virus = Some ''MRSA'', neighbors = [1]\<rparr>,
                          \<lparr>state = Susceptible, virus = None, neighbors = [0]\<rparr>],
           locations = [Home, Home], infection_log = [], n_draws = 2\<rparr>"
proof -
  have r: "roulette [ex_par ''Prob hospitalization'', ex_par ''Prob recovery''] ex_draws_discharge
     (ex_world\<lparr>n_draws := Suc (n_draws ex_world),
        locations := (locations ex_world)[0 := (if ex_draws_discharge (n_draws ex_world) < 1 / 2 then Community else Home)]\<rparr>)
     = (0, \<lparr>population = ex_pop, locations = [Home, Home], infection_log = [], n_draws = 2\<rparr>)"
    by (simp add: roulette_def runif_def ex_world_def ex_par_def ex_draws_discharge_def)
  have pre: "0 < length (population ex_world)" "0 < length (locations ex_world)"
    by (simp_all add: ex_world_def ex_pop_def)
  from update_infected_outcomes [OF pre r] r pre show ?thesis
    by (simp add: ex_world_def ex_pop_def)
qed

section \<open>What one handler invocation changes\<close>

lemma update_susceptible_effect:
  assumes "p < length (population w)" and "p < length (locations w)"
    and "\<forall>nb \<in> set (neighbors (population w ! p)).
           nb < length (population w) \<and> nb < length (locations w)"
    and "state (population w ! p) = Susceptible"
  shows "\<exists>w'. update_susceptible par d p w = Some w' \<and>
           locations w' = (locations w)[p := nat \<lfloor>d (n_draws w) * 3\<rfloor>] \<and>
           n_draws w < n_draws w' \<and>
           (population w' = population w \<or>
            (\<exists>v s. s \<noteq> Susceptible \<and>
               population w' = (population w)[p := (population w ! p)\<lparr>state := s, virus := Some v\<rparr>]))"
proof -
  let ?w2 = "w\<lparr>n_draws := Suc (n_draws w), locations := (locations w)[p := nat \<lfloor>d (n_draws w) * 3\<rfloor>]\<rparr>"
  have "\<exists>r k. scan_neighbors d p (neighbors (population w ! p)) ?w2 = Some (r, ?w2\<lparr>n_draws := k\<rparr>)"
    using assms by (intro scan_neighbors_defined) simp_all
  then obtain found j k where
    scan: "scan_neighbors d p (neighbors (population w ! p)) ?w2 = Some ((found, j), ?w2\<lparr>n_draws := k\<rparr>)"
    by (metis surj_pair)
  from scan_neighbors_frame [OF scan] have mono: "Suc (n_draws w) \<le> k"
    by simp
  from update_susceptible_scan [OF assms(1,2,4) scan, of par] mono show ?thesis
    by (cases found) auto
qed

lemma update_infected_effect:
  assumes "p < length (population w)" and "p < length (locations w)"
  shows "\<exists>w'. update_infected par d p w = Some w' \<and>
           locations w' = (locations w)[p := (if d (n_draws w) < 1 / 2 then Community else Home)] \<and>
           n_draws w' = n_draws w + 2 \<and>
           (population w' = population w \<or>
            population w' = (population w)[p := (population w ! p)\<lparr>state := Infected_Hospitalized\<rparr>] \<or>
            population w' = (population w)[p := (population w ! p)\<lparr>state := Susceptible, virus := None\<rparr>])"
  using assms
  by (simp add: update_infected_def runif_def roulette_def rm_virus_def change_state_def Let_def)

lemma floor_thrice:
  fixes u :: real
  assumes "0 \<le> u" and "u < 1"
  shows "nat \<lfloor>u * 3\<rfloor> \<in> {Community, Hospital, Home}"
proof -
  have lo: "0 \<le> \<lfloor>u * 3\<rfloor>" using assms by simp
  have "u * 3 < 3" using assms by simp
  then have hi: "\<lfloor>u * 3\<rfloor> < 3" by (simp add: floor_less_iff)
  have small: "n \<in> {Community, Hospital, Home}" if "n < 3" for n :: nat
    using that by auto
  from lo hi have "nat \<lfloor>u * 3\<rfloor> < 3" by linarith
  then show ?thesis by (rule small)
qed

section \<open>Location reassignment\<close>

text \<open>
  Claim C3.  The Susceptible handler, on a Susceptible agent, stores the truncation of
  three times its first draw as the agent's location, which is Community, Hospital or
  Home for a draw in \<open>[0,1)\<close>.  The Infected handler stores Community when its first
  draw is below 1/2 and Home otherwise, never Hospital.  Both hold whatever the later
  draws and the parameters are, that is, whether or not a transition follows.
\<close>

theorem location_reassignment:
  assumes "p < length (population w)" and "p < length (locations w)"
    and "\<forall>nb \<in> set (neighbors (population w ! p)).
           nb < length (population w) \<and> nb < length (locations w)"
  shows "(state (population w ! p) = Susceptible \<longrightarrow>
            (\<exists>w'. update_susceptible par d p w = Some w' \<and>
                   locations w' = (locations w)[p := nat \<lfloor>d (n_draws w) * 3\<rfloor>] \<and>
                   (0 \<le> d (n_draws w) \<and> d (n_draws w) < 1 \<longrightarrow>
                      locations w' ! p \<in> {Community, Hospital, Home}))) \<and>
         (\<exists>w'. update_infected par d p w = Some w' \<and>
                locations w' = (locations w)[p := (if d (n_draws w) < 1 / 2 then Community else Home)] \<and>
                locations w' ! p \<noteq> Hospital)"
proof (intro conjI impI)
  assume "state (population w ! p) = Susceptible"
  from update_susceptible_effect [OF assms this, of par d] floor_thrice [of "d (n_draws w)"] assms(2)
  show "\<exists>w'. update_susceptible par d p w = Some w' \<and>
          locations w' = (locations w)[p := nat \<lfloor>d (n_draws w) * 3\<rfloor>] \<and>
          (0 \<le> d (n_draws w) \<and> d (n_draws w) < 1 \<longrightarrow>
             locations w' ! p \<in> {Community, Hospital, Home})"
    by auto
next
  from update_infected_effect [OF assms(1,2), of par d] assms(2)
  show "\<exists>w'. update_infected par d p w = Some w' \<and>
          locations w' = (locations w)[p := (if d (n_draws w) < 1 / 2 then Community else Home)] \<and>
          locations w' ! p \<noteq> Hospital"
    by auto
qed

theorem location_reassignment_witness:
  "1 < length (population ex_world) \<and> 1 < length (locations ex_world) \<and>
   neighbors (population ex_world ! 1) = [0] \<and>
   state (population ex_world ! 1) = Susceptible \<and>
   0 \<le> ex_draws_miss (n_draws ex_world) \<and> ex_draws_miss (n_draws ex_world) < 1 \<and>
   (\<exists>w'. update_susceptible ex_par ex_draws_miss 1 ex_world = Some w' \<and>
          locations w' = [Community, Community] \<and>
          locations w' ! 1 \<in> {Community, Hospital, Home}) \<and>
   (\<exists>w'. update_infected ex_par ex_draws_discharge 0 ex_world = Some w' \<and>
          locations w' = [Home, Home] \<and> locations w' ! 0 \<noteq> Hospital)"
  using location_reassignment [of 1 ex_world ex_par ex_draws_miss]
    location_reassignment [of 0 ex_world ex_par ex_draws_discharge]
  by (simp add: ex_world_def ex_pop_def ex_draws_miss_def ex_draws_discharge_def)

section \<open>First success among the eligible neighbors\<close>

text \<open>
  Claim C1.  Let \<open>w2\<close> be the world of a Susceptible agent \<open>p\<close> after its location
  draw and \<open>es\<close> its eligible neighbors there, in the order of the neighbor list: those
  in state Infected whose stored location equals the location just assigned to \<open>p\<close>.
  The scan spends one draw per eligible neighbor, in that order, and a draw below 3/10
  is a success.  When no draw succeeds, the scan ends without infector after
  \<open>length es\<close> draws and the handler changes nothing but the location and the draw
  count.  When draw \<open>k\<close> is the first success, the scan stops after \<open>k + 1\<close> draws with
  neighbor \<open>es ! k\<close> as the infector, and the handler logs that neighbor and attaches
  its pathogen.
\<close>

theorem first_success_scan:
  assumes "p < length (population w)" and "p < length (locations w)"
    and "\<forall>nb \<in> set (neighbors (population w ! p)).
           nb < length (population w) \<and> nb < length (locations w)"
    and "state (population w ! p) = Susceptible"
    and "w2 = w\<lparr>n_draws := Suc (n_draws w),
                locations := (locations w)[p := nat \<lfloor>d (n_draws w) * 3\<rfloor>]\<rparr>"
    and "es = eligible p w2 (neighbors (population w ! p))"
  shows "((\<forall>k < length es. \<not> d (n_draws w2 + k) < 3 / 10) \<longrightarrow>
            scan_neighbors d p (neighbors (population w ! p)) w2 =
              Some ((None, 0), w2\<lparr>n_draws := n_draws w2 + length es\<rparr>) \<and>
            update_susceptible par d p w = Some (w2\<lparr>n_draws := n_draws w2 + length es\<rparr>)) \<and>
         (\<forall>k < length es. d (n_draws w2 + k) < 3 / 10 \<and> (\<forall>j < k. \<not> d (n_draws w2 + j) < 3 / 10) \<longrightarrow>
            scan_neighbors d p (neighbors (population w ! p)) w2 =
              Some ((virus (population w ! (es ! k)), es ! k), w2\<lparr>n_draws := n_draws w2 + k + 1\<rparr>) \<and>
            (\<forall>v. virus (population w ! (es ! k)) = Some v \<longrightarrow>
               update_susceptible par d p w =
                 Some (w2\<lparr>population := (population w)[p := (population w ! p)
                             \<lparr>state := (if par ''Prob hospitalization'' > d (n_draws w2 + k + 1)
                                        then Infected_Hospitalized else Infected),
                              virus := Some v\<rparr>],
                          infection_log := infection_log w @ [(p, es ! k, nat \<lfloor>d (n_draws w) * 3\<rfloor>)],
                          n_draws := n_draws w2 + k + 2\<rparr>)))"
proof (intro conjI impI allI)
  note valid = assms(3)
  have valid2: "\<forall>nb \<in> set (neighbors (population w ! p)).
                  nb < length (population w2) \<and> nb < length (locations w2)"
    using valid by (simp add: assms(5))
  have p2: "p < length (locations w2)"
    using assms(2) by (simp add: assms(5))
  {
    assume none: "\<forall>k < length es. \<not> d (n_draws w2 + k) < 3 / 10"
    from scan_neighbors_miss [OF valid2 p2] none
    show scan: "scan_neighbors d p (neighbors (population w ! p)) w2 =
              Some ((None, 0), w2\<lparr>n_draws := n_draws w2 + length es\<rparr>)"
      by (simp add: assms(6))
    from update_susceptible_scan [OF assms(1,2,4), of d None 0 "w2\<lparr>n_draws := n_draws w2 + length es\<rparr>" par]
      scan
    show "update_susceptible par d p w = Some (w2\<lparr>n_draws := n_draws w2 + length es\<rparr>)"
      by (simp add: assms(5))
  }
  {
    fix k
    assume k: "k < length es"
      and hit: "d (n_draws w2 + k) < 3 / 10 \<and> (\<forall>j < k. \<not> d (n_draws w2 + j) < 3 / 10)"
    from scan_neighbors_hit [OF valid2 p2, of k d] k hit
    show scan: "scan_neighbors d p (neighbors (population w ! p)) w2 =
              Some ((virus (population w ! (es ! k)), es ! k), w2\<lparr>n_draws := n_draws w2 + k + 1\<rparr>)"
      by (simp add: assms(5,6))
    {
      fix v assume v: "virus (population w ! (es ! k)) = Some v"
      from update_susceptible_scan [OF assms(1,2,4), of d "Some v" "es ! k" "w2\<lparr>n_draws := n_draws w2 + k + 1\<rparr>" par]
        scan v
      show "update_susceptible par d p w =
                 Some (w2\<lparr>population := (population w)[p := (population w ! p)
                             \<lparr>state := (if par ''Prob hospitalization'' > d (n_draws w2 + k + 1)
                                        then Infected_Hospitalized else Infected),
                              virus := Some v\<rparr>],
                          infection_log := infection_log w @ [(p, es ! k, nat \<lfloor>d (n_draws w) * 3\<rfloor>)],
                          n_draws := n_draws w2 + k + 2\<rparr>)"
        by (simp add: assms(5))
    }
  }
qed

theorem first_success_scan_witness:
  "0 < length (population ex_world4) \<and> 0 < length (locations ex_world4) \<and>
   neighbors (population ex_world4 ! 0) = [1, 2, 3] \<and>
   state (population ex_world4 ! 0) = Susceptible \<and>
   eligible 0 (ex_world4\<lparr>n_draws := 1, locations := [Community, Community, Hospital, Community]\<rparr>)
     (neighbors (population ex_world4 ! 0)) = [1, 3] \<and>
   \<not> ex_draws_second 1 < 3 / 10 \<and> ex_draws_second 2 < 3 / 10 \<and>
   scan_neighbors ex_draws_second 0 (neighbors (population ex_world4 ! 0))
     (ex_world4\<lparr>n_draws := 1, locations := [Community, Community, Hospital, Community]\<rparr>) =
     Some ((Some ''MRSA-2'', 3),
           ex_world4\<lparr>n_draws := 3, locations := [Community, Community, Hospital, Community]\<rparr>) \<and>
   update_susceptible ex_par ex_draws_second 0 ex_world4 =
     Some \<lparr>population = [\<lparr>state = Infected_Hospitalized, virus = Some ''MRSA-2'', neighbors = [1, 2, 3]\<rparr>,
                    \<lparr>state = Infected, virus = Some ''MRSA'', neighbors = [0]\<rparr>,
                    \<lparr>state = Infected, virus = Some ''MRSA'', neighbors = [0]\<rparr>,
                    \<lparr>state = Infected, virus = Some ''MRSA-2'', neighbors = [0]\<rparr>],
           locations = [Community, Community, Hospital, Community],
           infection_log = [(0, 3, Community)],
           n_draws = 4\<rparr> \<and>
   \<not> ex_draws_miss 1 < 3 / 10 \<and> \<not> ex_draws_miss 2 < 3 / 10 \<and>
   update_susceptible ex_par ex_draws_miss 0 ex_world4 =
     Some (ex_world4\<lparr>n_draws := 3, locations := [Community, Community, Hospital, Community]\<rparr>)"
proof -
  let ?w2 = "ex_world4\<lparr>n_draws := 1, locations := [Community, Community, Hospital, Community]\<rparr>"
  have pre: "0 < length (population ex_world4)" "0 < length (locations ex_world4)"
    "\<forall>nb \<in> set (neighbors (population ex_world4 ! 0)).
        nb < length (population ex_world4) \<and> nb < length (locations ex_world4)"
    "state (population ex_world4 ! 0) = Susceptible"
    by (simp_all add: ex_world4_def)
  have w2: "?w2 = ex_world4\<lparr>n_draws := Suc (n_draws ex_world4),
      locations := (locations ex_world4)[0 := nat \<lfloor>ex_draws_second (n_draws ex_world4) * 3\<rfloor>]\<rparr>"
    by (simp add: ex_world4_def ex_draws_second_def)
  have w2': "?w2 = ex_world4\<lparr>n_draws := Suc (n_draws ex_world4),
      locations := (locations ex_world4)[0 := nat \<lfloor>ex_draws_miss (n_draws ex_world4) * 3\<rfloor>]\<rparr>"
    by (simp add: ex_world4_def ex_draws_miss_def)
  have es: "[1, 3] = eligible 0 ?w2 (neighbors (population ex_world4 ! 0))"
    by (simp add: eligible_def ex_world4_def)
  note hit = first_success_scan [of 0 ex_world4 ?w2 ex_draws_second "[1, 3]" ex_par,
      OF pre w2 es, THEN conjunct2, THEN spec, of 1]
  note miss = first_success_scan [of 0 ex_world4 ?w2 ex_draws_miss "[1, 3]" ex_par,
      OF pre w2' es, THEN conjunct1]
  from hit miss pre(1,2,4) es show ?thesis
    by (simp add: ex_world4_def ex_draws_second_def ex_draws_miss_def ex_par_def All_less_Suc)
qed

section \<open>Locations after a step\<close>

lemma update_infected_hospitalized_effect:
  assumes "p < length (population w)" and "p < length (locations w)"
  shows "\<exists>w'. update_infected_hospitalized par d p w = Some w' \<and>
           locations w' = (locations w)[p := Hospital] \<and>
           n_draws w < n_draws w' \<and>
           (population w' = population w \<or>
            population w' = (population w)[p := (population w ! p)\<lparr>state := Infected\<rparr>] \<or>
            population w' = (population w)[p := (population w ! p)\<lparr>state := Susceptible, virus := None\<rparr>])"
  using assms
  by (simp add: update_infected_hospitalized_def runif_def rm_virus_def change_state_def Let_def)

lemma wf_world_neighbors:
  "wf_world w \<Longrightarrow> p < length (population w) \<Longrightarrow>
     \<forall>nb \<in> set (neighbors (population w ! p)). nb < length (population w) \<and> nb < length (locations w)"
  by (auto simp add: wf_world_def)

lemma wf_world_update:
  assumes "wf_world w" and "p < length (population w)"
    and "population w' = (population w)[p := a]" and "neighbors a = neighbors (population w ! p)"
    and "locations w' = (locations w)[p := l]"
  shows "wf_world w'"
proof -
  have "\<forall>nb \<in> set (neighbors b). nb < length (population w)" if "b \<in> set ((population w)[p := a])" for b
  proof -
    from that have "b = a \<or> b \<in> set (population w)"
      using set_update_subset_insert [of "population w" p a] by auto
    moreover have "population w ! p \<in> set (population w)"
      using assms(2) by simp
    ultimately show ?thesis
      using assms(1,4) by (auto simp add: wf_world_def)
  qed
  with assms show ?thesis
    by (simp add: wf_world_def)
qed

lemma update_state_effect:
  assumes "wf_world w" and "p < length (population w)"
  shows "\<exists>w' a l. update_state par d p w = Some w' \<and>
           population w' = (population w)[p := a] \<and>
           neighbors a = neighbors (population w ! p) \<and>
           locations w' = (locations w)[p := l] \<and>
           (0 \<le> d (n_draws w) \<and> d (n_draws w) < 1 \<longrightarrow> location_fits (state (population w ! p)) l)"
proof -
  from assms have pl: "p < length (locations w)"
    by (simp add: wf_world_def)
  have pack: ?thesis
    if "update_state par d p w = Some w'"
      and "population w' = population w \<or>
           (\<exists>s v. population w' = (population w)[p := (population w ! p)\<lparr>state := s, virus := v\<rparr>])"
      and "locations w' = (locations w)[p := l]"
      and "0 \<le> d (n_draws w) \<and> d (n_draws w) < 1 \<longrightarrow> location_fits (state (population w ! p)) l"
    for w' l
  proof -
    from that(2) obtain a where "population w' = (population w)[p := a]"
      and "neighbors a = neighbors (population w ! p)"
    proof (elim disjE exE)
      assume "population w' = population w"
      then have "population w' = (population w)[p := population w ! p]" by simp
      then show ?thesis by (rule that) simp
    next
      fix s v
      assume "population w' = (population w)[p := (population w ! p)\<lparr>state := s, virus := v\<rparr>]"
      then show ?thesis by (rule that) simp
    qed
    with that(1,3,4) show ?thesis by blast
  qed
  show ?thesis
  proof (cases "state (population w ! p)")
    case Susceptible
    from update_susceptible_effect [OF assms(2) pl wf_world_neighbors [OF assms] Susceptible, of par d]
    obtain w' where w': "update_susceptible par d p w = Some w'"
      "locations w' = (locations w)[p := nat \<lfloor>d (n_draws w) * 3\<rfloor>]"
      "population w' = population w \<or>
         (\<exists>v s. s \<noteq> States.Susceptible \<and>
            population w' = (population w)[p := (population w ! p)\<lparr>state := s, virus := Some v\<rparr>])"
      by auto
    have fits: "0 \<le> d (n_draws w) \<and> d (n_draws w) < 1 \<longrightarrow>
            location_fits (state (population w ! p)) (nat \<lfloor>d (n_draws w) * 3\<rfloor>)"
      using floor_thrice [of "d (n_draws w)"] Susceptible by (auto simp add: location_fits_def)
    have run: "update_state par d p w = Some w'"
      using w'(1) Susceptible assms(2) by (simp add: update_state_def)
    from w'(3) have "population w' = population w \<or>
           (\<exists>s v. population w' = (population w)[p := (population w ! p)\<lparr>state := s, virus := v\<rparr>])"
      by blast
    with run show ?thesis using w'(2) fits by (rule pack)
  next
    case Infected
    from update_infected_effect [OF assms(2) pl, of par d]
    obtain w' where w': "update_infected par d p w = Some w'"
      "locations w' = (locations w)[p := (if d (n_draws w) < 1 / 2 then Community else Home)]"
      "population w' = population w \<or>
         population w' = (population w)[p := (population w ! p)\<lparr>state := Infected_Hospitalized\<rparr>] \<or>
         population w' = (population w)[p := (population w ! p)\<lparr>state := Susceptible, virus := None\<rparr>]"
      by auto
    have fits: "0 \<le> d (n_draws w) \<and> d (n_draws w) < 1 \<longrightarrow>
      location_fits (state (population w ! p)) (if d (n_draws w) < 1 / 2 then Community else Home)"
      using Infected by (simp add: location_fits_def)
    have run: "update_state par d p w = Some w'"
      using w'(1) Infected assms(2) by (simp add: update_state_def)
    have keep: "(population w ! p)\<lparr>state := Infected_Hospitalized\<rparr> =
                (population w ! p)\<lparr>state := Infected_Hospitalized, virus := virus (population w ! p)\<rparr>"
      by simp
    from w'(3) have "population w' = population w \<or>
           (\<exists>s v. population w' = (population w)[p := (population w ! p)\<lparr>state := s, virus := v\<rparr>])"
      using keep by metis
    with run show ?thesis using w'(2) fits by (rule pack)
  next
    case Infected_Hospitalized
    from update_infected_hospitalized_effect [OF assms(2) pl, of par d]
    obtain w' where w': "update_infected_hospitalized par d p w = Some w'"
      "locations w' = (locations w)[p := Hospital]"
      "population w' = population w \<or>
         population w' = (population w)[p := (population w ! p)\<lparr>state := Infected\<rparr>] \<or>
         population w' = (population w)[p := (population w ! p)\<lparr>state := Susceptible, virus := None\<rparr>]"
      by auto
    have fits: "0 \<le> d (n_draws w) \<and> d (n_draws w) < 1 \<longrightarrow>
      location_fits (state (population w ! p)) Hospital"
      using Infected_Hospitalized by (simp add: location_fits_def)
    have run: "update_state par d p w = Some w'"
      using w'(1) Infected_Hospitalized assms(2) by (simp add: update_state_def)
    have keep: "(population w ! p)\<lparr>state := Infected\<rparr> =
                (population w ! p)\<lparr>state := Infected, virus := virus (population w ! p)\<rparr>"
      by simp
    from w'(3) have "population w' = population w \<or>
           (\<exists>s v. population w' = (population w)[p := (population w ! p)\<lparr>state := s, virus := v\<rparr>])"
      using keep by metis
    with run show ?thesis using w'(2) fits by (rule pack)
  qed
qed

lemma run_agents_locations:
  assumes "wf_world w" and "distinct ps" and "\<forall>p \<in> set ps. p < length (population w)"
    and "\<forall>k. 0 \<le> d k \<and> d k < 1"
  shows "\<exists>w'. run_agents par d ps w = Some w' \<and> wf_world w' \<and>
           length (population w') = length (population w) \<and>
           (\<forall>q. q \<notin> set ps \<longrightarrow>
                population w' ! q = population w ! q \<and> locations w' ! q = locations w ! q) \<and>
           (\<forall>p \<in> set ps. location_fits (state (population w ! p)) (locations w' ! p))"
  using assms(1-3)
proof (induction ps arbitrary: w)
  case Nil
  then show ?case by simp
next
  case (Cons p ps)
  from Cons.prems have p: "p < length (population w)" and fresh: "p \<notin> set ps"
    by simp_all
  from update_state_effect [OF Cons.prems(1) p, of par d] assms(4)
  obtain w1 a l where w1: "update_state par d p w = Some w1"
    "population w1 = (population w)[p := a]"
    "neighbors a = neighbors (population w ! p)"
    "locations w1 = (locations w)[p := l]"
    "location_fits (state (population w ! p)) l"
    by blast
  have wf1: "wf_world w1"
    using Cons.prems(1) p w1(2,3,4) by (rule wf_world_update)
  have len1: "length (population w1) = length (population w)"
    by (simp add: w1(2))
  from Cons.prems have "distinct ps" and "\<forall>q \<in> set ps. q < length (population w1)"
    by (simp_all add: len1)
  from Cons.IH [OF wf1 this]
  obtain w' where w': "run_agents par d ps w1 = Some w'" "wf_world w'"
    "length (population w') = length (population w1)"
    "\<forall>q. q \<notin> set ps \<longrightarrow>
        population w' ! q = population w1 ! q \<and> locations w' ! q = locations w1 ! q"
    "\<forall>q \<in> set ps. location_fits (state (population w1 ! q)) (locations w' ! q)"
    by blast
  have run: "run_agents par d (p # ps) w = Some w'"
    by (simp add: w1(1) w'(1))
  have others: "\<forall>q. q \<notin> set (p # ps) \<longrightarrow>
      population w' ! q = population w ! q \<and> locations w' ! q = locations w ! q"
    using w'(4) by (simp add: w1(2,4))
  have pl: "p < length (locations w)"
    using Cons.prems(1) p by (simp add: wf_world_def)
  have here: "location_fits (state (population w ! p)) (locations w' ! p)"
    using w'(4) fresh pl w1(5) by (simp add: w1(4))
  have later: "\<forall>q \<in> set ps. location_fits (state (population w ! q)) (locations w' ! q)"
  proof
    fix q assume q: "q \<in> set ps"
    with fresh have "q \<noteq> p" by auto
    then have "population w1 ! q = population w ! q" by (simp add: w1(2))
    with w'(5) q show "location_fits (state (population w ! q)) (locations w' ! q)" by auto
  qed
  from run w'(2) w'(3) len1 others here later show ?case
    by simp
qed

text \<open>
  Claim C2, as the code has it.  A step from a well-formed world, with draws in
  \<open>[0,1)\<close>, completes and leaves one location per agent; every location is Community,
  Hospital or Home; an agent that was Infected-Hospitalized when the step began is in
  the Hospital; an agent that was Infected when the step began is in the Community or at
  Home, whatever its state after the step.
\<close>

theorem step_locations:
  assumes "wf_world w" and "\<forall>k. 0 \<le> d k \<and> d k < 1"
  shows "\<exists>w'. step par d w = Some w' \<and>
           length (population w') = length (population w) \<and>
           length (locations w') = length (population w) \<and>
           (\<forall>p < length (population w).
              locations w' ! p \<in> {Community, Hospital, Home} \<and>
              (state (population w ! p) = Infected_Hospitalized \<longrightarrow> locations w' ! p = Hospital) \<and>
              (state (population w ! p) = Infected \<longrightarrow> locations w' ! p \<in> {Community, Home}))"
proof -
  have "distinct [0..<length (population w)]"
    and "\<forall>p \<in> set [0..<length (population w)]. p < length (population w)"
    by simp_all
  from run_agents_locations [OF assms(1) this assms(2), of par]
  obtain w' where w': "step par d w = Some w'" "wf_world w'"
    "length (population w') = length (population w)"
    "\<forall>p \<in> set [0..<length (population w)]. location_fits (state (population w ! p)) (locations w' ! p)"
    unfolding step_def by blast
  have "locations w' ! p \<in> {Community, Hospital, Home} \<and>
        (state (population w ! p) = Infected_Hospitalized \<longrightarrow> locations w' ! p = Hospital) \<and>
        (state (population w ! p) = Infected \<longrightarrow> locations w' ! p \<in> {Community, Home})"
    if "p < length (population w)" for p
  proof -
    from that w'(4) have "location_fits (state (population w ! p)) (locations w' ! p)"
      by simp
    then show ?thesis
      by (cases "state (population w ! p)") (auto simp add: location_fits_def)
  qed
  moreover from w'(2,3) have "length (locations w') = length (population w)"
    by (simp add: wf_world_def)
  ultimately show ?thesis
    using w'(1,3) by blast
qed

theorem step_locations_witness:
  "wf_world ex_world_hosp \<and> 0 \<le> ex_draws_zero 7 \<and> ex_draws_zero 7 < 1 \<and>
   state (population ex_world_hosp ! 0) = Infected_Hospitalized \<and>
   (\<exists>w'. step ex_par ex_draws_zero ex_world_hosp = Some w' \<and>
           length (population w') = length (population ex_world_hosp) \<and>
           length (locations w') = length (population ex_world_hosp) \<and>
           locations w' ! 0 = Hospital \<and>
           locations w' ! 1 \<in> {Community, Hospital, Home})"
proof -
  have wf: "wf_world ex_world_hosp"
    by (simp add: wf_world_def ex_world_hosp_def ex_pop_hosp_def)
  have rng: "\<forall>k. 0 \<le> ex_draws_zero k \<and> ex_draws_zero k < 1"
    by (simp add: ex_draws_zero_def)
  from step_locations [OF wf rng, of ex_par] wf rng show ?thesis
    by (auto simp add: ex_world_hosp_def ex_pop_hosp_def)
qed

text \<open>
  Claim C2, as stated, fails for an agent that enters Infected-Hospitalized during the
  step.  A single Infected agent with certain hospitalization: after the step it is
  Infected-Hospitalized and its location is Community, the location its Infected handler
  drew.
\<close>

theorem step_hospitalized_elsewhere:
  "step ex_par_hosp ex_draws_zero ex_single =
     Some \<lparr>population = [\<lparr>state = Infected_Hospitalized, virus = Some ''MRSA'', neighbors = []\<rparr>],
           locations = [Community], infection_log = [], n_draws = 2\<rparr> \<and>
   state (population \<lparr>population = [\<lparr>state = Infected_Hospitalized, virus = Some ''MRSA'', neighbors = []\<rparr>],
           locations = [Community], infection_log = [], n_draws = 2\<rparr> ! 0) = Infected_Hospitalized \<and>
   locations \<lparr>population = [\<lparr>state = Infected_Hospitalized, virus = Some ''MRSA'', neighbors = []\<rparr>],
           locations = [Community], infection_log = [], n_draws = 2\<rparr> ! 0 \<noteq> Hospital"
  by (simp add: step_def update_state_def update_infected_def runif_def roulette_def
      change_state_def ex_single_def ex_par_hosp_def ex_draws_zero_def)

section \<open>Pathogen attachment\<close>

lemma update_susceptible_population:
  assumes "update_susceptible par d p w = Some w'"
  shows "population w' = population w \<or>
         (\<exists>v s. s \<noteq> Susceptible \<and>
            population w' = (population w)[p := (population w ! p)\<lparr>state := s, virus := Some v\<rparr>])"
proof (cases "state (population w ! p) = Susceptible \<and> p < length (population w) \<and> p < length (locations w)")
  case False
  with assms show ?thesis
    by (auto simp add: update_susceptible_def split: if_splits)
next
  case True
  let ?w2 = "w\<lparr>n_draws := Suc (n_draws w), locations := (locations w)[p := nat \<lfloor>d (n_draws w) * 3\<rfloor>]\<rparr>"
  from assms True obtain found j w3 where
    scan: "scan_neighbors d p (neighbors (population w ! p)) ?w2 = Some ((found, j), w3)"
    by (auto simp add: update_susceptible_def runif_def Let_def split: option.splits)
  from scan_neighbors_frame [OF scan] have "w3 = ?w2\<lparr>n_draws := n_draws w3\<rparr>"
    by simp
  then have pop3: "population w3 = population w"
    by (cases w3) simp
  from update_susceptible_scan [of p w d found j w3 par] True scan assms pop3 show ?thesis
    by (cases found) auto
qed

lemma update_state_population:
  assumes "update_state par d p w = Some w'"
  shows "p < length (population w) \<and>
         (population w' = population w \<or>
          (\<exists>v s. s \<noteq> Susceptible \<and>
             population w' = (population w)[p := (population w ! p)\<lparr>state := s, virus := Some v\<rparr>]) \<or>
          (state (population w ! p) \<noteq> Susceptible \<and>
           (\<exists>s. s \<noteq> Susceptible \<and>
              population w' = (population w)[p := (population w ! p)\<lparr>state := s\<rparr>])) \<or>
          population w' = (population w)[p := (population w ! p)\<lparr>state := Susceptible, virus := None\<rparr>])"
proof -
  from assms have p: "p < length (population w)"
    by (simp add: update_state_def split: if_splits)
  show ?thesis
  proof (cases "state (population w ! p)")
    case Susceptible
    with assms p have "update_susceptible par d p w = Some w'"
      by (simp add: update_state_def)
    from update_susceptible_population [OF this] p show ?thesis
      by blast
  next
    case Infected
    with assms p have run: "update_infected par d p w = Some w'"
      by (simp add: update_state_def)
    then have pl: "p < length (locations w)"
      by (simp add: update_infected_def split: if_splits)
    from update_infected_effect [OF p pl, of par d] run Infected p show ?thesis
      by auto
  next
    case Infected_Hospitalized
    with assms p have run: "update_infected_hospitalized par d p w = Some w'"
      by (simp add: update_state_def)
    then have pl: "p < length (locations w)"
      by (simp add: update_infected_hospitalized_def split: if_splits)
    from update_infected_hospitalized_effect [OF p pl, of par d] run Infected_Hospitalized p show ?thesis
      by auto
  qed
qed

lemma attachment_ok_update:
  assumes "attachment_ok w" and "population w' = (population w)[p := a]"
    and "state a = Susceptible \<longleftrightarrow> virus a = None"
  shows "attachment_ok w'"
proof -
  have "state b = Susceptible \<longleftrightarrow> virus b = None" if "b \<in> set ((population w)[p := a])" for b
  proof -
    from that have "b = a \<or> b \<in> set (population w)"
      using set_update_subset_insert [of "population w" p a] by auto
    with assms(1,3) show ?thesis
      by (auto simp add: attachment_ok_def)
  qed
  with assms(2) show ?thesis
    by (simp add: attachment_ok_def)
qed

lemma update_state_attachment_ok:
  assumes "attachment_ok w" and "update_state par d p w = Some w'"
  shows "attachment_ok w'"
proof -
  from update_state_population [OF assms(2)]
  have p: "p < length (population w)"
    and cases: "population w' = population w \<or>
          (\<exists>v s. s \<noteq> Susceptible \<and>
             population w' = (population w)[p := (population w ! p)\<lparr>state := s, virus := Some v\<rparr>]) \<or>
          (state (population w ! p) \<noteq> Susceptible \<and>
           (\<exists>s. s \<noteq> Susceptible \<and>
              population w' = (population w)[p := (population w ! p)\<lparr>state := s\<rparr>])) \<or>
          population w' = (population w)[p := (population w ! p)\<lparr>state := Susceptible, virus := None\<rparr>]"
    by blast+
  from p have mem: "population w ! p \<in> set (population w)"
    by simp
  with assms(1) have old: "state (population w ! p) = Susceptible \<longleftrightarrow> virus (population w ! p) = None"
    by (simp add: attachment_ok_def)
  from cases show ?thesis
  proof (elim disjE exE conjE)
    assume "population w' = population w"
    with assms(1) show ?thesis by (simp add: attachment_ok_def)
  next
    fix v s
    assume s: "s \<noteq> Susceptible"
      and pop: "population w' = (population w)[p := (population w ! p)\<lparr>state := s, virus := Some v\<rparr>]"
    from assms(1) pop show ?thesis
      by (rule attachment_ok_update) (simp add: s)
  next
    fix s
    assume was: "state (population w ! p) \<noteq> Susceptible" and s: "s \<noteq> Susceptible"
      and pop: "population w' = (population w)[p := (population w ! p)\<lparr>state := s\<rparr>]"
    from assms(1) pop show ?thesis
      by (rule attachment_ok_update) (use old was s in simp)
  next
    assume pop: "population w' = (population w)[p := (population w ! p)\<lparr>state := Susceptible, virus := None\<rparr>]"
    from assms(1) pop show ?thesis
      by (rule attachment_ok_update) simp
  qed
qed

lemma reachable_attachment_ok:
  assumes "attachment_ok w0" and "reachable par d w0 w"
  shows "attachment_ok w"
  using assms(2,1)
  by (induction rule: reachable.induct) (auto intro: update_state_attachment_ok)

text \<open>
  Claim C8.  Start from a world in which an agent carries no pathogen exactly when it is
  Susceptible.  Then the same holds at every point of the run, so a Susceptible agent
  never carries a pathogen; and after any further handler invocation the acting agent
  carries a pathogen when it is Infected-Hospitalized or Infected and carries none when
  it is Susceptible.
\<close>

theorem attachment_invariant:
  assumes "attachment_ok w0" and "reachable par d w0 w"
  shows "attachment_ok w \<and>
    (\<forall>p w'. update_state par d p w = Some w' \<longrightarrow>
       attachment_ok w' \<and>
       (state (population w' ! p) = Infected_Hospitalized \<longrightarrow> virus (population w' ! p) \<noteq> None) \<and>
       (state (population w' ! p) = Infected \<longrightarrow> virus (population w' ! p) \<noteq> None) \<and>
       (state (population w' ! p) = Susceptible \<longrightarrow> virus (population w' ! p) = None))"
proof (intro conjI allI impI)
  from reachable_attachment_ok [OF assms] show ok: "attachment_ok w" .
  fix p w'
  assume run: "update_state par d p w = Some w'"
  from update_state_attachment_ok [OF ok run] show ok': "attachment_ok w'" .
  from update_state_population [OF run] have "p < length (population w')"
    by auto
  then have "population w' ! p \<in> set (population w')"
    by simp
  with ok' have iff: "state (population w' ! p) = Susceptible \<longleftrightarrow> virus (population w' ! p) = None"
    by (simp add: attachment_ok_def)
  {
    assume "state (population w' ! p) = Infected_Hospitalized"
    with iff show "virus (population w' ! p) \<noteq> None" by simp
  }
  {
    assume "state (population w' ! p) = Infected"
    with iff show "virus (population w' ! p) \<noteq> None" by simp
  }
  {
    assume "state (population w' ! p) = Susceptible"
    with iff show "virus (population w' ! p) = None" by simp
  }
qed

theorem attachment_invariant_witness:
  "attachment_ok ex_world \<and>
   reachable ex_par_recover ex_draws_infect ex_world
     \<lparr>population = [\<lparr>state = Infected, virus = Some ''MRSA'', neighbors = [1]\<rparr>,
                    \<lparr>state = Infected, virus = Some ''MRSA'', neighbors = [0]\<rparr>],
      locations = [Community, Community], infection_log = [(1, 0, Community)], n_draws = 3\<rparr> \<and>
   update_state ex_par_recover ex_draws_infect 0
     \<lparr>population = [\<lparr>state = Infected, virus = Some ''MRSA'', neighbors = [1]\<rparr>,
                    \<lparr>state = Infected, virus = Some ''MRSA'', neighbors = [0]\<rparr>],
      locations = [Community, Community], infection_log = [(1, 0, Community)], n_draws = 3\<rparr> =
     Some \<lparr>population = [\<lparr>state = Susceptible, virus = None, neighbors = [1]\<rparr>,
                          \<lparr>state = Infected, virus = Some ''MRSA'', neighbors = [0]\<rparr>],
           locations = [Home, Community], infection_log = [(1, 0, Community)], n_draws = 5\<rparr> \<and>
   attachment_ok
     \<lparr>population = [\<lparr>state = Susceptible, virus = None, neighbors = [1]\<rparr>,
                    \<lparr>state = Infected, virus = Some ''MRSA'', neighbors = [0]\<rparr>],
      locations = [Home, Community], infection_log = [(1, 0, Community)], n_draws = 5\<rparr>"
proof -
  let ?W1 = "\<lparr>population = [\<lparr>state = Infected, virus = Some ''MRSA'', neighbors = [1]\<rparr>,
                    \<lparr>state = Infected, virus = Some ''MRSA'', neighbors = [0]\<rparr>],
      locations = [Community, Community], infection_log = [(1, 0, Community)], n_draws = 3\<rparr>"
  have ok: "attachment_ok ex_world"
    by (simp add: attachment_ok_def ex_world_def ex_pop_def)
  have first: "update_state ex_par_recover ex_draws_infect 1 ex_world = Some ?W1"
    by (simp add: update_state_def update_susceptible_def runif_def set_virus_def
        ex_world_def ex_pop_def ex_par_recover_def ex_draws_infect_def)
  have reach: "reachable ex_par_recover ex_draws_infect ex_world ?W1"
    using reachable.start first by (rule reachable.invoke)
  have second: "update_state ex_par_recover ex_draws_infect 0 ?W1 =
     Some \<lparr>population = [\<lparr>state = Susceptible, virus = None, neighbors = [1]\<rparr>,
                          \<lparr>state = Infected, virus = Some ''MRSA'', neighbors = [0]\<rparr>],
           locations = [Home, Community], infection_log = [(1, 0, Community)], n_draws = 5\<rparr>"
    by (simp add: update_state_def update_infected_def runif_def roulette_def rm_virus_def
        ex_par_recover_def ex_draws_infect_def)
  from attachment_invariant [OF ok reach] second ok reach show ?thesis
    by auto
qed

end
